theory Spec2Isabelle
  imports Main "HOL-Library.Word"
begin

section \<open>ArrowGameSecure: the wagering contract as state-passing functions\<close>

text \<open>
  The model follows \<^verbatim>\<open>packages/hardhat/contracts/ArrowGameSecure.sol\<close>.
  A \<^verbatim>\<open>uint256\<close> is a natural number; Solidity 0.8 arithmetic is checked, so every
  \<^verbatim>\<open>+\<close>, \<^verbatim>\<open>-\<close> and \<^verbatim>\<open>*\<close> of the source is one of the
  \<open>checked_*\<close> operations below, which revert with \<open>Panic 17\<close> where the EVM does.
  A function body returns \<open>Inl\<close> of the error it reverts with, or \<open>Inr\<close> of the new
  contract state and the events it emitted. The wrappers \<open>payable\<close> and \<open>nonpayable\<close> add
  what the EVM does around a body: the value sent is credited before the body runs, and a
  revert restores the state the call started from.

  The modifiers \<^verbatim>\<open>onlyOwner\<close>, \<^verbatim>\<open>whenNotPaused\<close> and
  \<^verbatim>\<open>whenPaused\<close> come from the OpenZeppelin contracts the source imports (Ownable,
  Pausable, version 5): each is the first test of the function that carries it, in the
  order the source lists them, and reverts with OpenZeppelin's error
  (\<open>OwnableUnauthorizedAccount\<close>, \<open>EnforcedPause\<close>, \<open>ExpectedPause\<close>).

  An outgoing \<^verbatim>\<open>call{value: v}("")\<close> is one atomic transfer that the recipient
  accepts or rejects (\<open>accepts\<close>); code run by the recipient during the call is not part of
  the model, which is why the \<^verbatim>\<open>nonReentrant\<close> modifier has no counterpart here.
\<close>

subsection \<open>Data\<close>

type_synonym address = "160 word"
type_synonym bytes32 = "256 word"

record PendingBet =
  amount :: nat
  commitBlock :: nat
  commitHash :: bytes32
  resolved :: bool

record contract =
  balance :: nat
  owner :: address
  paused :: bool
  minBet :: nat
  maxBet :: nat
  reserveBalance :: nat
  totalGamesPlayed :: nat
  totalPayouts :: nat
  totalWagered :: nat
  playerGamesPlayed :: "address \<Rightarrow> nat"
  playerTotalWon :: "address \<Rightarrow> nat"
  playerTotalWagered :: "address \<Rightarrow> nat"
  pendingBets :: "address \<Rightarrow> PendingBet"

text \<open>The fields of \<^verbatim>\<open>abi.encodePacked\<close>, in order, before hashing.\<close>

datatype packed = B32 bytes32 | Addr address | U256 nat

text \<open>
  What a call sees of the transaction and the chain. \<open>keccak256\<close> and \<open>blockhash\<close> are the
  EVM's; they are parameters, so every theorem holds for any hash function.
\<close>

record env =
  msg_sender :: address
  msg_value :: nat
  block_number :: nat
  block_timestamp :: nat
  block_prevrandao :: nat
  blockhash :: "nat \<Rightarrow> bytes32"
  keccak256 :: "packed list \<Rightarrow> bytes32"
  accepts :: "address \<Rightarrow> bool"

datatype event =
    BetCommitted address nat bytes32
  | BetRevealed address nat nat nat
  | BetRefunded address nat string
  | GameFunded address nat
  | HouseWithdraw address nat nat
  | ConfigUpdated nat nat
  | EmergencyWithdraw address nat
  | Paused address
  | Unpaused address

datatype error =
    BetTooSmall nat nat
  | BetTooLarge nat nat
  | InsufficientHouseBalance nat nat
  | PendingBetExists
  | NoPendingBet
  | RevealTooEarly nat nat
  | RevealTooLate nat nat
  | InvalidReveal
  | EnforcedPause
  | ExpectedPause
  | OwnableUnauthorizedAccount address
  | Error string
  | Panic nat

subsection \<open>Constants and checked arithmetic\<close>

definition HOUSE_EDGE :: nat where
  "HOUSE_EDGE = 5"

definition MAX_PAYOUT_MULTIPLIER :: nat where
  "MAX_PAYOUT_MULTIPLIER = 190"

definition REVEAL_TIMEOUT :: nat where
  "REVEAL_TIMEOUT = 256"

definition MIN_REVEAL_DELAY :: nat where
  "MIN_REVEAL_DELAY = 1"

definition MAX_UINT256 :: nat where
  "MAX_UINT256 = 2 ^ 256 - 1"

definition ether :: nat where
  "ether = 10 ^ 18"

definition checked_add :: "nat \<Rightarrow> nat \<Rightarrow> error + nat" where
  "checked_add a b = (if a + b \<le> MAX_UINT256 then Inr (a + b) else Inl (Panic 17))"

definition checked_sub :: "nat \<Rightarrow> nat \<Rightarrow> error + nat" where
  "checked_sub a b = (if b \<le> a then Inr (a - b) else Inl (Panic 17))"

definition checked_mul :: "nat \<Rightarrow> nat \<Rightarrow> error + nat" where
  "checked_mul a b = (if a * b \<le> MAX_UINT256 then Inr (a * b) else Inl (Panic 17))"

definition bind :: "error + 'a \<Rightarrow> ('a \<Rightarrow> error + 'b) \<Rightarrow> error + 'b" where
  "bind m f = (case m of Inl err \<Rightarrow> Inl err | Inr x \<Rightarrow> f x)"

text \<open>
  \<^verbatim>\<open>(bool success, ) = payable(to).call{value: v}("")\<close>: the transfer happens when the
  contract holds \<open>v\<close> and the recipient accepts it; otherwise \<open>success\<close> is false and
  nothing moves.
\<close>

definition call_value :: "env \<Rightarrow> address \<Rightarrow> nat \<Rightarrow> contract \<Rightarrow> bool \<times> contract" where
  "call_value e to v s =
     (if v \<le> balance s \<and> accepts e to then (True, s\<lparr>balance := balance s - v\<rparr>)
      else (False, s))"

subsection \<open>Construction\<close>

text \<open>
  The field initialisers and the constructor: the deployer owns the contract, nothing is
  reserved, the engine is not paused. The contract starts with no funds.
\<close>

definition constructor :: "address \<Rightarrow> contract" where
  "constructor deployer =
     \<lparr> balance = 0,
       owner = deployer,
       paused = False,
       minBet = 5 * ether div 10000,
       maxBet = 5 * ether div 1000,
       reserveBalance = 0,
       totalGamesPlayed = 0,
       totalPayouts = 0,
       totalWagered = 0,
       playerGamesPlayed = (\<lambda>_. 0),
       playerTotalWon = (\<lambda>_. 0),
       playerTotalWagered = (\<lambda>_. 0),
       pendingBets = (\<lambda>_. \<lparr> amount = 0, commitBlock = 0, commitHash = 0, resolved = False \<rparr>) \<rparr>"

subsection \<open>Commit phase\<close>

definition commitBet :: "bytes32 \<Rightarrow> env \<Rightarrow> contract \<Rightarrow> error + contract \<times> event list" where
  "commitBet commitHash' e s =
     (if paused s then Inl EnforcedPause
      else if msg_value e < minBet s then Inl (BetTooSmall (msg_value e) (minBet s))
      else if msg_value e > maxBet s then Inl (BetTooLarge (msg_value e) (maxBet s))
      else if amount (pendingBets s (msg_sender e)) > 0
              \<and> \<not> resolved (pendingBets s (msg_sender e)) then Inl PendingBetExists
      else
        bind (checked_mul (msg_value e) MAX_PAYOUT_MULTIPLIER) (\<lambda>product.
        let maxPayout = product div 100 in
        bind (checked_sub (balance s) (msg_value e)) (\<lambda>availableForPayout.
        if availableForPayout < maxPayout
        then Inl (InsufficientHouseBalance availableForPayout maxPayout)
        else
          let s1 = s\<lparr>pendingBets := (pendingBets s)(msg_sender e :=
                      \<lparr> amount = msg_value e, commitBlock = block_number e,
                        commitHash = commitHash', resolved = False \<rparr>)\<rparr> in
          bind (checked_add (reserveBalance s1) maxPayout) (\<lambda>reserve.
          Inr (s1\<lparr>reserveBalance := reserve\<rparr>,
               [BetCommitted (msg_sender e) (msg_value e) commitHash'])))))"

subsection \<open>Reveal phase\<close>

text \<open>Lines 168 to 183: the outcome of a reveal from the random value and the stake.\<close>

definition revealBet_outcome :: "nat \<Rightarrow> nat \<Rightarrow> error + nat \<times> nat" where
  "revealBet_outcome random betAmount =
     (if random < 15 then
        bind (checked_mul betAmount MAX_PAYOUT_MULTIPLIER) (\<lambda>product. Inr (2, product div 100))
      else if random < 50 then Inr (1, betAmount div 2)
      else Inr (0, 0))"

text \<open>Lines 185 to 198: statistics, then the payout if there is one.\<close>

definition revealBet_settle :: "env \<Rightarrow> nat \<Rightarrow> nat \<Rightarrow> contract \<Rightarrow> error + contract" where
  "revealBet_settle e betAmount payout s =
     bind (checked_add (totalGamesPlayed s) 1) (\<lambda>games.
     bind (checked_add (totalWagered s) betAmount) (\<lambda>wagered.
     bind (checked_add (playerGamesPlayed s (msg_sender e)) 1) (\<lambda>playerGames.
     bind (checked_add (playerTotalWagered s (msg_sender e)) betAmount) (\<lambda>playerWagered.
     let s1 = s\<lparr>totalGamesPlayed := games, totalWagered := wagered,
                playerGamesPlayed := (playerGamesPlayed s)(msg_sender e := playerGames),
                playerTotalWagered := (playerTotalWagered s)(msg_sender e := playerWagered)\<rparr> in
     if payout > 0 then
       bind (checked_add (totalPayouts s1) payout) (\<lambda>payouts.
       bind (checked_add (playerTotalWon s1 (msg_sender e)) payout) (\<lambda>playerWon.
       let s2 = s1\<lparr>totalPayouts := payouts,
                   playerTotalWon := (playerTotalWon s1)(msg_sender e := playerWon)\<rparr> in
       case call_value e (msg_sender e) payout s2 of
         (success, s3) \<Rightarrow> if success then Inr s3 else Inl (Error ''Payout failed'')))
     else Inr s1))))"

definition revealBet :: "bytes32 \<Rightarrow> env \<Rightarrow> contract \<Rightarrow> error + contract \<times> event list" where
  "revealBet secret e s =
     (let bet = pendingBets s (msg_sender e) in
      if paused s then Inl EnforcedPause
      else if amount bet = 0 \<or> resolved bet then Inl NoPendingBet
      else
        bind (checked_add (commitBlock bet) MIN_REVEAL_DELAY) (\<lambda>earliest.
        if block_number e \<le> earliest
        then bind (checked_add earliest 1) (\<lambda>required.
               Inl (RevealTooEarly (block_number e) required))
        else
          bind (checked_add (commitBlock bet) REVEAL_TIMEOUT) (\<lambda>deadline.
          if block_number e > deadline then Inl (RevealTooLate (block_number e) deadline)
          else
            let expectedHash = keccak256 e [B32 secret, Addr (msg_sender e)] in
            if expectedHash \<noteq> commitHash bet then Inl InvalidReveal
            else
              let s1 = s\<lparr>pendingBets := (pendingBets s)(msg_sender e := bet\<lparr>resolved := True\<rparr>)\<rparr>;
                  betAmount = amount bet in
              bind (checked_mul betAmount MAX_PAYOUT_MULTIPLIER) (\<lambda>product.
              let maxPayout = product div 100 in
              bind (checked_sub (reserveBalance s1) maxPayout) (\<lambda>reserve.
              let s2 = s1\<lparr>reserveBalance := reserve\<rparr> in
              bind (checked_add (commitBlock bet) 1) (\<lambda>nextBlock.
              let blockHash = blockhash e nextBlock;
                  random = unat (keccak256 e [B32 secret, B32 blockHash, Addr (msg_sender e),
                                              U256 (commitBlock bet)]) mod 100 in
              bind (revealBet_outcome random betAmount) (\<lambda>(result, payout).
              bind (revealBet_settle e betAmount payout s2) (\<lambda>s3.
              Inr (s3, [BetRevealed (msg_sender e) betAmount result payout])))))))))"

subsection \<open>Refund after the reveal window\<close>

definition refundExpiredBet :: "env \<Rightarrow> contract \<Rightarrow> error + contract \<times> event list" where
  "refundExpiredBet e s =
     (let bet = pendingBets s (msg_sender e) in
      if amount bet = 0 \<or> resolved bet then Inl NoPendingBet
      else
        bind (checked_add (commitBlock bet) REVEAL_TIMEOUT) (\<lambda>deadline.
        if block_number e \<le> deadline
        then bind (checked_add deadline 1) (\<lambda>required.
               Inl (RevealTooEarly (block_number e) required))
        else
          let s1 = s\<lparr>pendingBets := (pendingBets s)(msg_sender e := bet\<lparr>resolved := True\<rparr>)\<rparr>;
              refundAmount = amount bet in
          bind (checked_mul refundAmount MAX_PAYOUT_MULTIPLIER) (\<lambda>product.
          let maxPayout = product div 100 in
          bind (checked_sub (reserveBalance s1) maxPayout) (\<lambda>reserve.
          let s2 = s1\<lparr>reserveBalance := reserve\<rparr> in
          case call_value e (msg_sender e) refundAmount s2 of
            (success, s3) \<Rightarrow>
              if success
              then Inr (s3, [BetRefunded (msg_sender e) refundAmount ''Reveal timeout''])
              else Inl (Error ''Refund failed'')))))"

subsection \<open>Simple mode\<close>

text \<open>Lines 263 to 275: the outcome of a quick bet from the random value and the stake.\<close>

definition quickBet_outcome :: "nat \<Rightarrow> nat \<Rightarrow> error + nat \<times> nat" where
  "quickBet_outcome random msg_value' =
     (if random < 15 then
        bind (checked_mul msg_value' MAX_PAYOUT_MULTIPLIER) (\<lambda>product. Inr (2, product div 100))
      else if random < 50 then Inr (1, msg_value' div 2)
      else Inr (0, 0))"

text \<open>Lines 277 to 289: statistics, then the payout if there is one.\<close>

definition quickBet_settle :: "env \<Rightarrow> nat \<Rightarrow> contract \<Rightarrow> error + contract" where
  "quickBet_settle e payout s =
     bind (checked_add (totalGamesPlayed s) 1) (\<lambda>games.
     bind (checked_add (totalWagered s) (msg_value e)) (\<lambda>wagered.
     bind (checked_add (playerGamesPlayed s (msg_sender e)) 1) (\<lambda>playerGames.
     bind (checked_add (playerTotalWagered s (msg_sender e)) (msg_value e)) (\<lambda>playerWagered.
     let s1 = s\<lparr>totalGamesPlayed := games, totalWagered := wagered,
                playerGamesPlayed := (playerGamesPlayed s)(msg_sender e := playerGames),
                playerTotalWagered := (playerTotalWagered s)(msg_sender e := playerWagered)\<rparr> in
     if payout > 0 then
       bind (checked_add (totalPayouts s1) payout) (\<lambda>payouts.
       bind (checked_add (playerTotalWon s1 (msg_sender e)) payout) (\<lambda>playerWon.
       let s2 = s1\<lparr>totalPayouts := payouts,
                   playerTotalWon := (playerTotalWon s1)(msg_sender e := playerWon)\<rparr> in
       case call_value e (msg_sender e) payout s2 of
         (success, s3) \<Rightarrow> if success then Inr s3 else Inl (Error ''Payout failed'')))
     else Inr s1))))"

definition quickBet :: "env \<Rightarrow> contract \<Rightarrow> error + contract \<times> event list" where
  "quickBet e s =
     (if paused s then Inl EnforcedPause
      else if msg_value e < minBet s then Inl (BetTooSmall (msg_value e) (minBet s))
      else if msg_value e > maxBet s then Inl (BetTooLarge (msg_value e) (maxBet s))
      else
        bind (checked_mul (msg_value e) MAX_PAYOUT_MULTIPLIER) (\<lambda>product.
        let maxPayout = product div 100 in
        bind (checked_sub (balance s) (msg_value e)) (\<lambda>availableForPayout.
        if availableForPayout < maxPayout then
          (case call_value e (msg_sender e) (msg_value e) s of
             (refunded, s1) \<Rightarrow>
               if refunded
               then Inr (s1, [BetRefunded (msg_sender e) (msg_value e)
                                ''Insufficient house balance''])
               else Inl (Error ''Refund failed''))
        else
          bind (checked_sub (block_number e) 1) (\<lambda>previousBlock.
          let random = unat (keccak256 e [U256 (block_prevrandao e), U256 (block_timestamp e),
                                          Addr (msg_sender e), U256 (totalGamesPlayed s),
                                          B32 (blockhash e previousBlock)]) mod 100 in
          bind (quickBet_outcome random (msg_value e)) (\<lambda>(result, payout).
          bind (quickBet_settle e payout s) (\<lambda>s1.
          Inr (s1, [BetRevealed (msg_sender e) (msg_value e) result payout])))))))"

subsection \<open>House management\<close>

definition fundHouse :: "env \<Rightarrow> contract \<Rightarrow> error + contract \<times> event list" where
  "fundHouse e s =
     (if \<not> msg_value e > 0 then Inl (Error ''Must send CELO'')
      else Inr (s, [GameFunded (msg_sender e) (msg_value e)]))"

definition withdrawHouse :: "nat \<Rightarrow> env \<Rightarrow> contract \<Rightarrow> error + contract \<times> event list" where
  "withdrawHouse amount' e s =
     (if msg_sender e \<noteq> owner s then Inl (OwnableUnauthorizedAccount (msg_sender e))
      else
        bind (checked_sub (balance s) (reserveBalance s)) (\<lambda>available.
        if \<not> amount' \<le> available then Inl (Error ''Cannot withdraw reserved funds'')
        else
          case call_value e (owner s) amount' s of
            (success, s1) \<Rightarrow>
              if success
              then Inr (s1, [HouseWithdraw (msg_sender e) amount' (reserveBalance s1)])
              else Inl (Error ''Withdrawal failed'')))"

definition pause :: "env \<Rightarrow> contract \<Rightarrow> error + contract \<times> event list" where
  "pause e s =
     (if msg_sender e \<noteq> owner s then Inl (OwnableUnauthorizedAccount (msg_sender e))
      else if paused s then Inl EnforcedPause
      else Inr (s\<lparr>paused := True\<rparr>, [Paused (msg_sender e)]))"

definition unpause :: "env \<Rightarrow> contract \<Rightarrow> error + contract \<times> event list" where
  "unpause e s =
     (if msg_sender e \<noteq> owner s then Inl (OwnableUnauthorizedAccount (msg_sender e))
      else if \<not> paused s then Inl ExpectedPause
      else Inr (s\<lparr>paused := False\<rparr>, [Unpaused (msg_sender e)]))"

definition emergencyWithdraw :: "env \<Rightarrow> contract \<Rightarrow> error + contract \<times> event list" where
  "emergencyWithdraw e s =
     (if msg_sender e \<noteq> owner s then Inl (OwnableUnauthorizedAccount (msg_sender e))
      else if \<not> paused s then Inl ExpectedPause
      else
        let balance' = balance s in
        case call_value e (owner s) balance' s of
          (success, s1) \<Rightarrow>
            if success then Inr (s1, [EmergencyWithdraw (msg_sender e) balance'])
            else Inl (Error ''Emergency withdrawal failed''))"

definition updateBetLimits :: "nat \<Rightarrow> nat \<Rightarrow> env \<Rightarrow> contract \<Rightarrow> error + contract \<times> event list" where
  "updateBetLimits minBet' maxBet' e s =
     (if msg_sender e \<noteq> owner s then Inl (OwnableUnauthorizedAccount (msg_sender e))
      else if \<not> minBet' > 0 then Inl (Error ''Min bet must be positive'')
      else if \<not> minBet' < maxBet' then Inl (Error ''Invalid bet range'')
      else if \<not> maxBet' \<le> ether div 100 then Inl (Error ''Max bet too high'')
      else Inr (s\<lparr>minBet := minBet', maxBet := maxBet'\<rparr>, [ConfigUpdated minBet' maxBet']))"

definition receive :: "env \<Rightarrow> contract \<Rightarrow> error + contract \<times> event list" where
  "receive e s = Inr (s, [GameFunded (msg_sender e) (msg_value e)])"

subsection \<open>Transactions\<close>

datatype outcome = Reverted error | Succeeded "event list"

text \<open>
  A payable function runs on the state in which the value sent is already part of
  \<^verbatim>\<open>address(this).balance\<close>. A revert leaves the contract as it was before the call,
  the value sent included.
\<close>

definition payable ::
  "(env \<Rightarrow> contract \<Rightarrow> error + contract \<times> event list) \<Rightarrow> env \<Rightarrow> contract \<Rightarrow> outcome \<times> contract" where
  "payable body e s =
     (case body e (s\<lparr>balance := balance s + msg_value e\<rparr>) of
        Inl err \<Rightarrow> (Reverted err, s)
      | Inr (s', events) \<Rightarrow> (Succeeded events, s'))"

text \<open>
  A call to a function that is not payable carries no value: the body never reads
  \<open>msg_value\<close>, and the balance is the one the call found.
\<close>

definition nonpayable ::
  "(env \<Rightarrow> contract \<Rightarrow> error + contract \<times> event list) \<Rightarrow> env \<Rightarrow> contract \<Rightarrow> outcome \<times> contract" where
  "nonpayable body e s =
     (case body e s of
        Inl err \<Rightarrow> (Reverted err, s)
      | Inr (s', events) \<Rightarrow> (Succeeded events, s'))"

datatype operation =
    Call_commitBet bytes32
  | Call_revealBet bytes32
  | Call_refundExpiredBet
  | Call_quickBet
  | Call_fundHouse
  | Call_withdrawHouse nat
  | Call_pause
  | Call_unpause
  | Call_emergencyWithdraw
  | Call_updateBetLimits nat nat
  | Call_receive

fun exec :: "operation \<Rightarrow> env \<Rightarrow> contract \<Rightarrow> outcome \<times> contract" where
  "exec (Call_commitBet h) e s = payable (commitBet h) e s"
| "exec (Call_revealBet secret) e s = nonpayable (revealBet secret) e s"
| "exec Call_refundExpiredBet e s = nonpayable refundExpiredBet e s"
| "exec Call_quickBet e s = payable quickBet e s"
| "exec Call_fundHouse e s = payable fundHouse e s"
| "exec (Call_withdrawHouse a) e s = nonpayable (withdrawHouse a) e s"
| "exec Call_pause e s = nonpayable pause e s"
| "exec Call_unpause e s = nonpayable unpause e s"
| "exec Call_emergencyWithdraw e s = nonpayable emergencyWithdraw e s"
| "exec (Call_updateBetLimits lo hi) e s = nonpayable (updateBetLimits lo hi) e s"
| "exec Call_receive e s = payable receive e s"

text \<open>A sequence of transactions, each with its own call context; reverted ones change nothing.\<close>

fun run :: "(operation \<times> env) list \<Rightarrow> contract \<Rightarrow> contract" where
  "run [] s = s"
| "run ((call, e) # rest) s = run rest (snd (exec call e s))"

fun reverted :: "outcome \<Rightarrow> bool" where
  "reverted (Reverted err) = True"
| "reverted (Succeeded events) = False"

subsection \<open>Notions of the specification\<close>

text \<open>
  A ledger slot holds an open bet when the test of lines 93 and 135 says so: a positive
  amount that is not resolved.
\<close>

definition committed :: "PendingBet \<Rightarrow> bool" where
  "committed bet = (amount bet > 0 \<and> \<not> resolved bet)"

text \<open>The worst-case payout of a stake, as lines 98, 154, 222 and 242 compute it.\<close>

definition worstCasePayout :: "nat \<Rightarrow> nat" where
  "worstCasePayout stake = stake * MAX_PAYOUT_MULTIPLIER div 100"

text \<open>
  The Outcome Resolver in the words of the specification (section 4.3), for comparison
  with \<open>revealBet_outcome\<close> and \<open>quickBet_outcome\<close>, which come from the source. The
  contract reports a tier as the number \<open>tier_code\<close> gives.
\<close>

datatype tier = Miss | Ring | Bullseye

definition outcome_resolver :: "nat \<Rightarrow> nat \<Rightarrow> tier \<times> nat" where
  "outcome_resolver r stake =
     (if r < 15 then (Bullseye, stake * 190 div 100)
      else if 15 \<le> r \<and> r < 50 then (Ring, stake div 2)
      else (Miss, 0))"

fun tier_code :: "tier \<Rightarrow> nat" where
  "tier_code Miss = 0"
| "tier_code Ring = 1"
| "tier_code Bullseye = 2"

text \<open>
  What an open bet has reserved, and the second half of the solvency invariant: the reserve
  is the sum of the worst-case payouts of the open bets. Addresses are a finite type, so
  the sum over all of them is a finite sum.
\<close>

definition liability :: "PendingBet \<Rightarrow> nat" where
  "liability bet = (if committed bet then worstCasePayout (amount bet) else 0)"

definition reserve_matches_open_bets :: "contract \<Rightarrow> bool" where
  "reserve_matches_open_bets s =
     (reserveBalance s = (\<Sum>a | committed (pendingBets s a). worstCasePayout (amount (pendingBets s a))))"

text \<open>
  The random values of the two paths, as lines 159 to 165 and 255 to 261 derive them: a
  function of the secret, the hash of the block after the commit, the caller and the commit
  height in a reveal; of what the block shows in a quick bet.
\<close>

definition reveal_random :: "env \<Rightarrow> bytes32 \<Rightarrow> nat \<Rightarrow> nat" where
  "reveal_random e secret commitHeight =
     unat (keccak256 e [B32 secret, B32 (blockhash e (commitHeight + 1)), Addr (msg_sender e),
                        U256 commitHeight]) mod 100"

definition quick_random :: "env \<Rightarrow> nat \<Rightarrow> nat" where
  "quick_random e games =
     unat (keccak256 e [U256 (block_prevrandao e), U256 (block_timestamp e), Addr (msg_sender e),
                        U256 games, B32 (blockhash e (block_number e - 1))]) mod 100"

fun is_commitBet :: "operation \<Rightarrow> bool" where
  "is_commitBet (Call_commitBet h) = True"
| "is_commitBet call = False"

subsection \<open>Concrete scenarios\<close>

text \<open>
  Four accounts, a stand-in for the hash function (the first packed field decides the
  digest), and a call context in which every recipient accepts what it is sent.
\<close>

definition deployer :: address where
  "deployer = 1"

definition alice :: address where
  "alice = 2"

definition bob :: address where
  "bob = 3"

definition carol :: address where
  "carol = 4"

fun toy_keccak256 :: "packed list \<Rightarrow> bytes32" where
  "toy_keccak256 (B32 x # rest) = x"
| "toy_keccak256 (U256 n # rest) = of_nat n"
| "toy_keccak256 other = 0"

definition tx :: "address \<Rightarrow> nat \<Rightarrow> nat \<Rightarrow> env" where
  "tx sender val height =
     \<lparr> msg_sender = sender, msg_value = val, block_number = height, block_timestamp = 0,
       block_prevrandao = 0, blockhash = (\<lambda>n. 0), keccak256 = toy_keccak256,
       accepts = (\<lambda>a. True) \<rparr>"

text \<open>The house is funded with 0.002 CELO; then Alice commits 0.001 CELO at height 2.\<close>

definition funded :: contract where
  "funded = run [(Call_fundHouse, tx deployer (2 * 10 ^ 15) 1)] (constructor deployer)"

definition alice_committed :: contract where
  "alice_committed = run [(Call_commitBet 11, tx alice (10 ^ 15) 2)] funded"

text \<open>The owner pauses the engine while Alice's bet is open.\<close>

definition paused_with_open_bet :: contract where
  "paused_with_open_bet = run [(Call_pause, tx deployer 0 3)] alice_committed"

text \<open>A house funded with 0.001 CELO only.\<close>

definition thin_house :: contract where
  "thin_house = run [(Call_fundHouse, tx deployer (10 ^ 15) 1)] (constructor deployer)"

text \<open>
  Three players commit 0.001 CELO each against a house funded with 0.002 CELO; then two of
  them reveal.
\<close>

definition overcommit_scenario :: "(operation \<times> env) list" where
  "overcommit_scenario =
     [(Call_fundHouse, tx deployer (2 * 10 ^ 15) 1),
      (Call_commitBet 11, tx alice (10 ^ 15) 2),
      (Call_commitBet 12, tx bob (10 ^ 15) 3),
      (Call_commitBet 13, tx carol (10 ^ 15) 4)]"

definition two_reveals :: "(operation \<times> env) list" where
  "two_reveals =
     [(Call_revealBet 11, tx alice 0 5),
      (Call_revealBet 12, tx bob 0 6)]"

section \<open>Properties\<close>

lemmas scenario_defs = deployer_def alice_def bob_def tx_def funded_def
  alice_committed_def paused_with_open_bet_def

lemmas model_defs = constructor_def payable_def nonpayable_def commitBet_def revealBet_def
  revealBet_outcome_def revealBet_settle_def refundExpiredBet_def quickBet_def
  quickBet_outcome_def quickBet_settle_def fundHouse_def withdrawHouse_def pause_def
  unpause_def emergencyWithdraw_def updateBetLimits_def receive_def bind_def checked_add_def
  checked_sub_def checked_mul_def call_value_def MAX_PAYOUT_MULTIPLIER_def REVEAL_TIMEOUT_def
  MIN_REVEAL_DELAY_def MAX_UINT256_def ether_def Let_def

subsection \<open>What the helper steps leave alone\<close>

lemma call_value_frame:
  "call_value e to v s = (ok, s') \<Longrightarrow>
     reserveBalance s' = reserveBalance s \<and> pendingBets s' = pendingBets s
     \<and> paused s' = paused s \<and> owner s' = owner s \<and> minBet s' = minBet s \<and> maxBet s' = maxBet s
     \<and> balance s' = (if ok then balance s - v else balance s) \<and> (ok \<longrightarrow> v \<le> balance s)"
  by (auto simp: call_value_def split: if_splits)

lemma revealBet_settle_frame:
  "revealBet_settle e stake payout s = Inr s' \<Longrightarrow>
     reserveBalance s' = reserveBalance s \<and> pendingBets s' = pendingBets s
     \<and> paused s' = paused s \<and> owner s' = owner s \<and> minBet s' = minBet s \<and> maxBet s' = maxBet s
     \<and> balance s' = balance s - payout \<and> payout \<le> balance s"
  by (auto simp: revealBet_settle_def bind_def checked_add_def call_value_def Let_def
           split: if_splits sum.splits)

lemma quickBet_settle_frame:
  "quickBet_settle e payout s = Inr s' \<Longrightarrow>
     reserveBalance s' = reserveBalance s \<and> pendingBets s' = pendingBets s
     \<and> paused s' = paused s \<and> owner s' = owner s \<and> minBet s' = minBet s \<and> maxBet s' = maxBet s
     \<and> balance s' = balance s - payout \<and> payout \<le> balance s"
  by (auto simp: quickBet_settle_def bind_def checked_add_def call_value_def Let_def
           split: if_splits sum.splits)

lemma quickBet_reserve:
  "quickBet e s = Inr (s', evs) \<Longrightarrow> reserveBalance s' = reserveBalance s"
  by (auto simp: quickBet_def bind_def checked_sub_def checked_mul_def call_value_def Let_def
           split: if_splits sum.splits prod.splits dest: quickBet_settle_frame)

lemma refund_ignores_pause:
  "exec Call_refundExpiredBet e (s\<lparr>paused := b\<rparr>)
     = (fst (exec Call_refundExpiredBet e s), (snd (exec Call_refundExpiredBet e s))\<lparr>paused := b\<rparr>)"
  by (simp add: nonpayable_def refundExpiredBet_def bind_def checked_add_def checked_sub_def
        checked_mul_def call_value_def Let_def)

subsection \<open>Owner withdrawals and the reserve\<close>

text \<open>
  Claim C3, as the code has it. \<open>withdrawHouse\<close> rejects every amount above the balance
  minus the reserve and changes nothing then; when it goes through, the reserve is untouched
  and the balance left still covers it. \<open>emergencyWithdraw\<close> goes through only for the
  owner of a paused engine, and then it sends out the whole balance and leaves the reserve
  counter as it was.
\<close>

theorem withdrawHouse_keeps_reserve:
  "(balance s - reserveBalance s < a \<longrightarrow>
      reverted (fst (exec (Call_withdrawHouse a) e s)) \<and> snd (exec (Call_withdrawHouse a) e s) = s)
   \<and> (\<not> reverted (fst (exec (Call_withdrawHouse a) e s)) \<longrightarrow>
        balance (snd (exec (Call_withdrawHouse a) e s)) = balance s - a
        \<and> reserveBalance (snd (exec (Call_withdrawHouse a) e s)) = reserveBalance s
        \<and> reserveBalance s \<le> balance s - a)
   \<and> (\<not> reverted (fst (exec Call_emergencyWithdraw e s)) \<longrightarrow>
        paused s \<and> msg_sender e = owner s
        \<and> balance (snd (exec Call_emergencyWithdraw e s)) = 0
        \<and> reserveBalance (snd (exec Call_emergencyWithdraw e s)) = reserveBalance s)"
  by (auto simp: nonpayable_def withdrawHouse_def emergencyWithdraw_def bind_def checked_sub_def
        call_value_def Let_def split: if_splits)

text \<open>
  With Alice's bet open (balance 0.003, reserve 0.0019), the owner cannot withdraw 0.002 but
  can withdraw 0.001; once the engine is paused the emergency withdrawal empties the contract.
\<close>

theorem withdrawHouse_keeps_reserve_witness:
  "balance alice_committed - reserveBalance alice_committed < 2 * 10 ^ 15
   \<and> reverted (fst (exec (Call_withdrawHouse (2 * 10 ^ 15)) (tx deployer 0 3) alice_committed))
   \<and> snd (exec (Call_withdrawHouse (2 * 10 ^ 15)) (tx deployer 0 3) alice_committed) = alice_committed
   \<and> \<not> reverted (fst (exec (Call_withdrawHouse (10 ^ 15)) (tx deployer 0 3) alice_committed))
   \<and> balance (snd (exec (Call_withdrawHouse (10 ^ 15)) (tx deployer 0 3) alice_committed)) = 2 * 10 ^ 15
   \<and> reserveBalance (snd (exec (Call_withdrawHouse (10 ^ 15)) (tx deployer 0 3) alice_committed)) = 19 * 10 ^ 14
   \<and> \<not> reverted (fst (exec Call_emergencyWithdraw (tx deployer 0 4) paused_with_open_bet))
   \<and> balance (snd (exec Call_emergencyWithdraw (tx deployer 0 4) paused_with_open_bet)) = 0"
proof -
  have a: "balance alice_committed - reserveBalance alice_committed < 2 * 10 ^ 15"
    by (simp add: scenario_defs model_defs)
  have b: "\<not> reverted (fst (exec (Call_withdrawHouse (10 ^ 15)) (tx deployer 0 3) alice_committed))"
    by (simp add: scenario_defs model_defs)
  have c: "\<not> reverted (fst (exec Call_emergencyWithdraw (tx deployer 0 4) paused_with_open_bet))"
    by (simp add: scenario_defs model_defs)
  have d: "balance alice_committed = 3 * 10 ^ 15" "reserveBalance alice_committed = 19 * 10 ^ 14"
    by (simp_all add: scenario_defs model_defs)
  show ?thesis
    using a b c d
      withdrawHouse_keeps_reserve [of alice_committed "2 * 10 ^ 15" "tx deployer 0 3"]
      withdrawHouse_keeps_reserve [of alice_committed "10 ^ 15" "tx deployer 0 3"]
      withdrawHouse_keeps_reserve [of paused_with_open_bet _ "tx deployer 0 4"]
    by simp
qed

text \<open>
  Claim C3 as stated fails: an owner-level operation does send out reserved funds. With
  0.0019 CELO reserved for Alice's open bet, the owner of the paused engine withdraws all
  0.003 CELO; the reserve counter still says 0.0019 and the balance is zero.
\<close>

theorem emergencyWithdraw_takes_reserved_funds:
  "fst (exec Call_emergencyWithdraw (tx deployer 0 4) paused_with_open_bet)
     = Succeeded [EmergencyWithdraw deployer (3 * 10 ^ 15)]
   \<and> reserveBalance paused_with_open_bet = 19 * 10 ^ 14
   \<and> reserveBalance (snd (exec Call_emergencyWithdraw (tx deployer 0 4) paused_with_open_bet))
       = 19 * 10 ^ 14
   \<and> balance (snd (exec Call_emergencyWithdraw (tx deployer 0 4) paused_with_open_bet)) = 0"
  by (simp add: scenario_defs model_defs)

subsection \<open>Pause\<close>

text \<open>
  Claim C4, as the code has it. While the engine is paused, \<open>commitBet\<close>, \<open>revealBet\<close> and
  \<open>quickBet\<close> revert with \<open>EnforcedPause\<close> and change nothing. \<open>refundExpiredBet\<close> carries
  no pause modifier: paused, it does exactly what it does on the same state unpaused.
\<close>

theorem paused_disables_betting:
  assumes "paused s"
  shows "exec (Call_commitBet h) e s = (Reverted EnforcedPause, s)
       \<and> exec (Call_revealBet secret) e s = (Reverted EnforcedPause, s)
       \<and> exec Call_quickBet e s = (Reverted EnforcedPause, s)
       \<and> exec Call_refundExpiredBet e s
           = (fst (exec Call_refundExpiredBet e (s\<lparr>paused := False\<rparr>)),
              (snd (exec Call_refundExpiredBet e (s\<lparr>paused := False\<rparr>)))\<lparr>paused := True\<rparr>)"
proof -
  have "exec Call_refundExpiredBet e ((s\<lparr>paused := False\<rparr>)\<lparr>paused := True\<rparr>)
          = (fst (exec Call_refundExpiredBet e (s\<lparr>paused := False\<rparr>)),
             (snd (exec Call_refundExpiredBet e (s\<lparr>paused := False\<rparr>)))\<lparr>paused := True\<rparr>)"
    by (rule refund_ignores_pause)
  moreover have "(s\<lparr>paused := False\<rparr>)\<lparr>paused := True\<rparr> = s"
    using assms by simp
  ultimately show ?thesis
    using assms by (simp add: payable_def nonpayable_def commitBet_def revealBet_def quickBet_def)
qed

theorem paused_disables_betting_witness:
  "paused paused_with_open_bet
   \<and> exec (Call_commitBet 12) (tx bob (10 ^ 15) 4) paused_with_open_bet
       = (Reverted EnforcedPause, paused_with_open_bet)
   \<and> exec (Call_revealBet 11) (tx alice 0 4) paused_with_open_bet
       = (Reverted EnforcedPause, paused_with_open_bet)
   \<and> exec Call_quickBet (tx bob (10 ^ 15) 4) paused_with_open_bet
       = (Reverted EnforcedPause, paused_with_open_bet)"
proof -
  have p: "paused paused_with_open_bet"
    by (simp add: scenario_defs model_defs)
  show ?thesis
    using p paused_disables_betting [OF p] by simp
qed

text \<open>
  Claim C4 as stated fails for the refund: in the paused engine, at height 300, Alice's
  refund of the bet she committed at height 2 goes through and pays her stake back.
\<close>

theorem refund_while_paused:
  "paused paused_with_open_bet
   \<and> fst (exec Call_refundExpiredBet (tx alice 0 300) paused_with_open_bet)
       = Succeeded [BetRefunded alice (10 ^ 15) ''Reveal timeout'']
   \<and> balance (snd (exec Call_refundExpiredBet (tx alice 0 300) paused_with_open_bet))
       = 2 * 10 ^ 15
   \<and> balance paused_with_open_bet = 3 * 10 ^ 15"
  by (simp add: scenario_defs model_defs)

subsection \<open>One open bet per caller\<close>

text \<open>
  Claim C7, as the code has it. A caller with an open bet cannot commit again: the call
  reverts and leaves the whole contract state as it was. The checks run in the order of the
  source, so the error is \<open>PendingBetExists\<close> when the engine is not paused and the stake
  is within the limits, and the error of the earlier check otherwise.
\<close>

theorem second_commit_fails:
  assumes "committed (pendingBets s (msg_sender e))"
  shows "exec (Call_commitBet h) e s =
           (Reverted (if paused s then EnforcedPause
                      else if msg_value e < minBet s then BetTooSmall (msg_value e) (minBet s)
                      else if msg_value e > maxBet s then BetTooLarge (msg_value e) (maxBet s)
                      else PendingBetExists), s)"
  using assms by (simp add: payable_def commitBet_def committed_def)

theorem second_commit_fails_witness:
  "committed (pendingBets alice_committed (msg_sender (tx alice (10 ^ 15) 3)))
   \<and> exec (Call_commitBet 12) (tx alice (10 ^ 15) 3) alice_committed
       = (Reverted PendingBetExists, alice_committed)"
proof -
  have c: "committed (pendingBets alice_committed (msg_sender (tx alice (10 ^ 15) 3)))"
    by (simp add: committed_def scenario_defs model_defs)
  have "\<not> paused alice_committed" "minBet alice_committed \<le> 10 ^ 15"
    "10 ^ 15 \<le> maxBet alice_committed"
    by (simp_all add: scenario_defs model_defs)
  then show ?thesis
    using c second_commit_fails [OF c, of 12] by (simp add: tx_def)
qed

text \<open>
  Claim C7 as stated fails on the kind of error: Alice's second commit with a stake of 1 wei
  reverts with \<open>BetTooSmall\<close>, and her second commit to the paused engine with
  \<open>EnforcedPause\<close>.
\<close>

theorem second_commit_other_error:
  "committed (pendingBets alice_committed alice)
   \<and> fst (exec (Call_commitBet 12) (tx alice 1 3) alice_committed)
       = Reverted (BetTooSmall 1 (5 * 10 ^ 14))
   \<and> committed (pendingBets paused_with_open_bet alice)
   \<and> fst (exec (Call_commitBet 12) (tx alice (10 ^ 15) 4) paused_with_open_bet)
       = Reverted EnforcedPause"
  by (simp add: committed_def scenario_defs model_defs)

subsection \<open>Quick bets and the reserve\<close>

text \<open>
  Claim C9. \<open>quickBet\<close> never changes \<open>reserveBalance\<close>, whether it resolves the bet,
  refunds the caller or reverts; nor does any other operation outside the two-step path
  of commit, reveal and refund.
\<close>

theorem quickBet_keeps_reserveBalance:
  "reserveBalance (snd (exec Call_quickBet e s)) = reserveBalance s
   \<and> reserveBalance (snd (exec Call_fundHouse e s)) = reserveBalance s
   \<and> reserveBalance (snd (exec (Call_withdrawHouse a) e s)) = reserveBalance s
   \<and> reserveBalance (snd (exec Call_emergencyWithdraw e s)) = reserveBalance s
   \<and> reserveBalance (snd (exec Call_pause e s)) = reserveBalance s
   \<and> reserveBalance (snd (exec Call_unpause e s)) = reserveBalance s
   \<and> reserveBalance (snd (exec (Call_updateBetLimits lo hi) e s)) = reserveBalance s
   \<and> reserveBalance (snd (exec Call_receive e s)) = reserveBalance s"
proof -
  have "reserveBalance (snd (exec Call_quickBet e s)) = reserveBalance s"
    by (auto simp: payable_def split: sum.splits dest: quickBet_reserve)
  moreover have "reserveBalance (snd (exec Call_fundHouse e s)) = reserveBalance s"
    by (simp add: payable_def fundHouse_def)
  moreover have "reserveBalance (snd (exec (Call_withdrawHouse a) e s)) = reserveBalance s"
    by (simp add: nonpayable_def withdrawHouse_def bind_def checked_sub_def call_value_def)
  moreover have "reserveBalance (snd (exec Call_emergencyWithdraw e s)) = reserveBalance s"
    by (simp add: nonpayable_def emergencyWithdraw_def call_value_def Let_def)
  moreover have "reserveBalance (snd (exec Call_pause e s)) = reserveBalance s"
    by (simp add: nonpayable_def pause_def)
  moreover have "reserveBalance (snd (exec Call_unpause e s)) = reserveBalance s"
    by (simp add: nonpayable_def unpause_def)
  moreover have "reserveBalance (snd (exec (Call_updateBetLimits lo hi) e s)) = reserveBalance s"
    by (simp add: nonpayable_def updateBetLimits_def)
  moreover have "reserveBalance (snd (exec Call_receive e s)) = reserveBalance s"
    by (simp add: payable_def receive_def)
  ultimately show ?thesis by blast
qed

subsection \<open>Funding the house\<close>

text \<open>
  Claim C10. \<open>fundHouse\<close> reverts exactly when no value is sent, with no state change and
  no event; with any positive value it succeeds, emits \<open>GameFunded\<close>, and the only change
  to the contract is the deposit on its balance.
\<close>

theorem fundHouse_fails_exactly_on_zero:
  "exec Call_fundHouse e s =
     (if msg_value e = 0 then (Reverted (Error ''Must send CELO''), s)
      else (Succeeded [GameFunded (msg_sender e) (msg_value e)],
            s\<lparr>balance := balance s + msg_value e\<rparr>))"
  by (simp add: payable_def fundHouse_def)

theorem fundHouse_fails_exactly_on_zero_witness:
  "exec Call_fundHouse (tx deployer 0 1) (constructor deployer)
     = (Reverted (Error ''Must send CELO''), constructor deployer)
   \<and> exec Call_fundHouse (tx deployer (2 * 10 ^ 15) 1) (constructor deployer)
     = (Succeeded [GameFunded deployer (2 * 10 ^ 15)], funded)"
  using fundHouse_fails_exactly_on_zero [of "tx deployer 0 1" "constructor deployer"]
    fundHouse_fails_exactly_on_zero [of "tx deployer (2 * 10 ^ 15) 1" "constructor deployer"]
  by (simp add: scenario_defs payable_def fundHouse_def)

subsection \<open>Failures of a reveal\<close>

lemma revealBet_settle_errors:
  "revealBet_settle e stake payout s = Inl err \<Longrightarrow> err = Panic 17 \<or> err = Error ''Payout failed''"
  by (auto simp: revealBet_settle_def bind_def checked_add_def call_value_def Let_def
           split: if_splits sum.splits)

lemma revealBet_outcome_errors:
  "revealBet_outcome r stake = Inl err \<Longrightarrow> err = Panic 17"
  by (auto simp: revealBet_outcome_def bind_def checked_mul_def split: if_splits)

lemma revealBet_in_window:
  assumes "committed (pendingBets s (msg_sender e))" and "\<not> paused s"
    and "commitBlock (pendingBets s (msg_sender e)) + 256 \<le> MAX_UINT256"
    and "commitBlock (pendingBets s (msg_sender e)) + 1 < block_number e"
    and "block_number e \<le> commitBlock (pendingBets s (msg_sender e)) + 256"
    and "keccak256 e [B32 secret, Addr (msg_sender e)] = commitHash (pendingBets s (msg_sender e))"
    and "revealBet secret e s = Inl err"
  shows "err = Panic 17 \<or> err = Error ''Payout failed''"
  using assms
  by (auto simp: revealBet_def committed_def bind_def checked_add_def checked_sub_def
        checked_mul_def REVEAL_TIMEOUT_def MIN_REVEAL_DELAY_def Let_def
      split: if_splits sum.splits prod.splits
      dest: revealBet_settle_errors revealBet_outcome_errors)

text \<open>
  Claim C6, as the code has it. For a caller with an open bet on an engine that is not
  paused (the commit height far enough below \<open>2 ^ 256\<close> for the additions not to
  overflow), the checks run in this order. The reveal fails with \<open>RevealTooEarly\<close>
  exactly when the height is at most the commit height plus 1, with \<open>RevealTooLate\<close>
  exactly when it is above the commit height plus 256, and with \<open>InvalidReveal\<close> exactly
  when the height is inside the window and the digest of the secret and the caller differs
  from the stored one. Each of these failures leaves the whole state, the open bet
  included, as it was.
\<close>

theorem reveal_failures:
  assumes "committed (pendingBets s (msg_sender e))"
    and "\<not> paused s"
    and "commitBlock (pendingBets s (msg_sender e)) + 256 \<le> MAX_UINT256"
  shows
    "(block_number e \<le> commitBlock (pendingBets s (msg_sender e)) + 1 \<longrightarrow>
        exec (Call_revealBet secret) e s
          = (Reverted (RevealTooEarly (block_number e)
                         (commitBlock (pendingBets s (msg_sender e)) + 2)), s))
     \<and> (commitBlock (pendingBets s (msg_sender e)) + 256 < block_number e \<longrightarrow>
        exec (Call_revealBet secret) e s
          = (Reverted (RevealTooLate (block_number e)
                         (commitBlock (pendingBets s (msg_sender e)) + 256)), s))
     \<and> (commitBlock (pendingBets s (msg_sender e)) + 1 < block_number e
        \<and> block_number e \<le> commitBlock (pendingBets s (msg_sender e)) + 256
        \<and> keccak256 e [B32 secret, Addr (msg_sender e)]
            \<noteq> commitHash (pendingBets s (msg_sender e)) \<longrightarrow>
        exec (Call_revealBet secret) e s = (Reverted InvalidReveal, s))
     \<and> (commitBlock (pendingBets s (msg_sender e)) + 1 < block_number e
        \<and> block_number e \<le> commitBlock (pendingBets s (msg_sender e)) + 256
        \<and> keccak256 e [B32 secret, Addr (msg_sender e)]
            = commitHash (pendingBets s (msg_sender e)) \<longrightarrow>
        (\<forall>a b. fst (exec (Call_revealBet secret) e s) \<noteq> Reverted (RevealTooEarly a b)
             \<and> fst (exec (Call_revealBet secret) e s) \<noteq> Reverted (RevealTooLate a b))
        \<and> fst (exec (Call_revealBet secret) e s) \<noteq> Reverted InvalidReveal)"
proof -
  let ?cb = "commitBlock (pendingBets s (msg_sender e))"
  have early: "block_number e \<le> ?cb + 1 \<Longrightarrow>
      revealBet secret e s = Inl (RevealTooEarly (block_number e) (?cb + 2))"
    using assms
    by (simp add: revealBet_def committed_def bind_def checked_add_def MIN_REVEAL_DELAY_def
          Let_def)
  have late: "?cb + 256 < block_number e \<Longrightarrow>
      revealBet secret e s = Inl (RevealTooLate (block_number e) (?cb + 256))"
    using assms
    by (simp add: revealBet_def committed_def bind_def checked_add_def MIN_REVEAL_DELAY_def
          REVEAL_TIMEOUT_def Let_def)
  have invalid: "?cb + 1 < block_number e \<Longrightarrow> block_number e \<le> ?cb + 256 \<Longrightarrow>
      keccak256 e [B32 secret, Addr (msg_sender e)] \<noteq> commitHash (pendingBets s (msg_sender e)) \<Longrightarrow>
      revealBet secret e s = Inl InvalidReveal"
    using assms
    by (simp add: revealBet_def committed_def bind_def checked_add_def MIN_REVEAL_DELAY_def
          REVEAL_TIMEOUT_def Let_def)
  have valid: "?cb + 1 < block_number e \<Longrightarrow> block_number e \<le> ?cb + 256 \<Longrightarrow>
      keccak256 e [B32 secret, Addr (msg_sender e)] = commitHash (pendingBets s (msg_sender e)) \<Longrightarrow>
      (\<forall>a b. fst (exec (Call_revealBet secret) e s) \<noteq> Reverted (RevealTooEarly a b)
             \<and> fst (exec (Call_revealBet secret) e s) \<noteq> Reverted (RevealTooLate a b))
        \<and> fst (exec (Call_revealBet secret) e s) \<noteq> Reverted InvalidReveal"
    using revealBet_in_window [OF assms, of secret]
    by (auto simp: nonpayable_def split: sum.splits)
  show ?thesis
    using early late invalid valid by (simp add: nonpayable_def)
qed

theorem reveal_failures_witness:
  "committed (pendingBets alice_committed (msg_sender (tx alice 0 3)))
   \<and> \<not> paused alice_committed
   \<and> commitBlock (pendingBets alice_committed (msg_sender (tx alice 0 3))) + 256 \<le> MAX_UINT256
   \<and> exec (Call_revealBet 11) (tx alice 0 3) alice_committed
       = (Reverted (RevealTooEarly 3 4), alice_committed)
   \<and> exec (Call_revealBet 11) (tx alice 0 259) alice_committed
       = (Reverted (RevealTooLate 259 258), alice_committed)
   \<and> exec (Call_revealBet 99) (tx alice 0 258) alice_committed
       = (Reverted InvalidReveal, alice_committed)
   \<and> fst (exec (Call_revealBet 11) (tx alice 0 258) alice_committed) \<noteq> Reverted InvalidReveal"
proof -
  have a: "committed (pendingBets alice_committed (msg_sender (tx alice 0 h)))" for h
    by (simp add: committed_def scenario_defs model_defs)
  have b: "\<not> paused alice_committed"
    by (simp add: scenario_defs model_defs)
  have c: "commitBlock (pendingBets alice_committed (msg_sender (tx alice 0 h))) + 256 \<le> MAX_UINT256" for h
    by (simp add: scenario_defs model_defs)
  have d: "commitBlock (pendingBets alice_committed alice) = 2"
    "commitHash (pendingBets alice_committed alice) = 11"
    by (simp_all add: scenario_defs model_defs)
  show ?thesis
    using a [of 3] b c [of 3] d
      reveal_failures [OF a b c, of 3 11]
      reveal_failures [OF a b c, of 259 11]
      reveal_failures [OF a b c, of 258 99]
      reveal_failures [OF a b c, of 258 11]
    by (simp add: tx_def)
qed

text \<open>
  Claim C6 as stated fails on \<open>InvalidReveal\<close>: with a wrong secret, Alice's reveal at
  height 300 fails with \<open>RevealTooLate\<close> and at height 3 with \<open>RevealTooEarly\<close>,
  since the window is checked first. And on a paused engine her reveal at height 3 fails
  with \<open>EnforcedPause\<close>, not \<open>RevealTooEarly\<close>.
\<close>

theorem reveal_failure_order:
  "committed (pendingBets alice_committed alice)
   \<and> toy_keccak256 [B32 99, Addr alice] \<noteq> commitHash (pendingBets alice_committed alice)
   \<and> fst (exec (Call_revealBet 99) (tx alice 0 300) alice_committed)
       = Reverted (RevealTooLate 300 258)
   \<and> fst (exec (Call_revealBet 99) (tx alice 0 3) alice_committed)
       = Reverted (RevealTooEarly 3 4)
   \<and> committed (pendingBets paused_with_open_bet alice)
   \<and> fst (exec (Call_revealBet 11) (tx alice 0 3) paused_with_open_bet)
       = Reverted EnforcedPause"
  by (simp add: committed_def scenario_defs model_defs)

subsection \<open>A bet is resolved once\<close>

lemma commitBet_slots:
  "commitBet h e s = Inr (s', evs) \<Longrightarrow> c \<noteq> msg_sender e \<Longrightarrow> pendingBets s' c = pendingBets s c"
  by (auto simp: commitBet_def bind_def checked_add_def checked_sub_def checked_mul_def Let_def
      split: if_splits)

lemma revealBet_slots:
  "revealBet x e s = Inr (s', evs) \<Longrightarrow> resolved (pendingBets s c) \<Longrightarrow>
     pendingBets s' c = pendingBets s c"
  by (auto simp: revealBet_def bind_def checked_add_def checked_sub_def checked_mul_def Let_def
      split: if_splits sum.splits prod.splits dest!: revealBet_settle_frame)

lemma revealBet_resolves:
  "revealBet x e s = Inr (s', evs) \<Longrightarrow> resolved (pendingBets s' (msg_sender e))"
  by (auto simp: revealBet_def bind_def checked_add_def checked_sub_def checked_mul_def Let_def
      split: if_splits sum.splits prod.splits dest!: revealBet_settle_frame)

lemma refundExpiredBet_slots:
  "refundExpiredBet e s = Inr (s', evs) \<Longrightarrow> resolved (pendingBets s c) \<Longrightarrow>
     pendingBets s' c = pendingBets s c"
  by (auto simp: refundExpiredBet_def bind_def checked_add_def checked_sub_def checked_mul_def
        call_value_def Let_def
      split: if_splits sum.splits prod.splits)

lemma refundExpiredBet_resolves:
  "refundExpiredBet e s = Inr (s', evs) \<Longrightarrow> resolved (pendingBets s' (msg_sender e))"
  by (auto simp: refundExpiredBet_def bind_def checked_add_def checked_sub_def checked_mul_def
        call_value_def Let_def
      split: if_splits sum.splits prod.splits)

lemma quickBet_slots:
  "quickBet e s = Inr (s', evs) \<Longrightarrow> pendingBets s' = pendingBets s"
  by (auto simp: quickBet_def bind_def checked_sub_def checked_mul_def call_value_def Let_def
      split: if_splits sum.splits prod.splits dest!: quickBet_settle_frame)

lemma exec_keeps_resolved_slot:
  assumes "resolved (pendingBets s c)" and "\<not> (is_commitBet call \<and> msg_sender e = c)"
  shows "pendingBets (snd (exec call e s)) c = pendingBets s c"
proof (cases call)
  case (Call_commitBet h)
  with assms(2) have "c \<noteq> msg_sender e" by auto
  then show ?thesis
    using Call_commitBet commitBet_slots [of h e "s\<lparr>balance := balance s + msg_value e\<rparr>" _ _ c]
    by (auto simp: payable_def split: sum.splits)
next
  case (Call_revealBet x)
  then show ?thesis
    using assms(1) revealBet_slots [of x e s _ _ c]
    by (auto simp: nonpayable_def split: sum.splits)
next
  case Call_refundExpiredBet
  then show ?thesis
    using assms(1) refundExpiredBet_slots [of e s _ _ c]
    by (auto simp: nonpayable_def split: sum.splits)
next
  case Call_quickBet
  then show ?thesis
    using quickBet_slots [of e "s\<lparr>balance := balance s + msg_value e\<rparr>"]
    by (auto simp: payable_def split: sum.splits)
next
  case Call_fundHouse
  then show ?thesis by (simp add: payable_def fundHouse_def)
next
  case (Call_withdrawHouse a)
  then show ?thesis
    by (simp add: nonpayable_def withdrawHouse_def bind_def checked_sub_def call_value_def)
next
  case Call_pause
  then show ?thesis by (simp add: nonpayable_def pause_def)
next
  case Call_unpause
  then show ?thesis by (simp add: nonpayable_def unpause_def)
next
  case Call_emergencyWithdraw
  then show ?thesis by (simp add: nonpayable_def emergencyWithdraw_def call_value_def Let_def)
next
  case (Call_updateBetLimits lo hi)
  then show ?thesis by (simp add: nonpayable_def updateBetLimits_def)
next
  case Call_receive
  then show ?thesis by (simp add: payable_def receive_def)
qed

lemma run_keeps_resolved_slot:
  "resolved (pendingBets s c) \<Longrightarrow>
   \<forall>(call, e) \<in> set later. \<not> (is_commitBet call \<and> msg_sender e = c) \<Longrightarrow>
   pendingBets (run later s) c = pendingBets s c"
proof (induction later arbitrary: s)
  case Nil
  then show ?case by simp
next
  case (Cons step later)
  obtain call e where step: "step = (call, e)" by (cases step)
  from Cons.prems step have keep: "pendingBets (snd (exec call e s)) c = pendingBets s c"
    by (intro exec_keeps_resolved_slot) auto
  with Cons.prems have "resolved (pendingBets (snd (exec call e s)) c)" by simp
  moreover from Cons.prems have "\<forall>(call, e) \<in> set later. \<not> (is_commitBet call \<and> msg_sender e = c)"
    by simp
  ultimately have "pendingBets (run later (snd (exec call e s))) c = pendingBets (snd (exec call e s)) c"
    by (rule Cons.IH)
  with keep step show ?case by simp
qed

text \<open>
  Claim C8, as the code has it. Once a caller's reveal or refund has gone through, the bet
  is marked resolved, and it stays so through any later transactions until that caller
  commits a new bet. In every such later state a refund by the caller fails with
  \<open>NoPendingBet\<close>, and a reveal fails with \<open>NoPendingBet\<close>, or with
  \<open>EnforcedPause\<close> when the engine is paused by then; neither changes the state, so
  the bet is never paid out or refunded twice.
\<close>

theorem resolved_exactly_once:
  assumes "\<not> reverted (fst (exec (Call_revealBet secret) e s))
             \<and> s' = snd (exec (Call_revealBet secret) e s)
           \<or> \<not> reverted (fst (exec Call_refundExpiredBet e s))
             \<and> s' = snd (exec Call_refundExpiredBet e s)"
    and "\<forall>(call, e') \<in> set later. \<not> (is_commitBet call \<and> msg_sender e' = msg_sender e)"
    and "msg_sender e2 = msg_sender e"
  shows "resolved (pendingBets s' (msg_sender e))
       \<and> exec Call_refundExpiredBet e2 (run later s') = (Reverted NoPendingBet, run later s')
       \<and> exec (Call_revealBet secret2) e2 (run later s')
           = (Reverted (if paused (run later s') then EnforcedPause else NoPendingBet),
              run later s')"
proof -
  have res: "resolved (pendingBets s' (msg_sender e))"
    using assms(1)
    by (auto simp: nonpayable_def split: sum.splits
          dest: revealBet_resolves refundExpiredBet_resolves)
  have "pendingBets (run later s') (msg_sender e) = pendingBets s' (msg_sender e)"
    using res assms(2) by (rule run_keeps_resolved_slot)
  with res have "resolved (pendingBets (run later s') (msg_sender e2))"
    using assms(3) by simp
  then show ?thesis
    using res by (simp add: nonpayable_def refundExpiredBet_def revealBet_def)
qed

theorem resolved_exactly_once_witness:
  "\<not> reverted (fst (exec (Call_revealBet 11) (tx alice 0 5) alice_committed))
   \<and> \<not> reverted (fst (exec Call_refundExpiredBet (tx alice 0 300) alice_committed))
   \<and> exec Call_refundExpiredBet (tx alice 0 300)
         (run [(Call_commitBet 12, tx bob (10 ^ 15) 6)]
            (snd (exec (Call_revealBet 11) (tx alice 0 5) alice_committed)))
       = (Reverted NoPendingBet,
          run [(Call_commitBet 12, tx bob (10 ^ 15) 6)]
            (snd (exec (Call_revealBet 11) (tx alice 0 5) alice_committed)))
   \<and> exec (Call_revealBet 11) (tx alice 0 301)
         (run [] (snd (exec Call_refundExpiredBet (tx alice 0 300) alice_committed)))
       = (Reverted NoPendingBet,
          run [] (snd (exec Call_refundExpiredBet (tx alice 0 300) alice_committed)))"
proof -
  have a: "\<not> reverted (fst (exec (Call_revealBet 11) (tx alice 0 5) alice_committed))"
    by (simp add: scenario_defs model_defs)
  have b: "\<not> reverted (fst (exec Call_refundExpiredBet (tx alice 0 300) alice_committed))"
    by (simp add: scenario_defs model_defs)
  have c: "\<forall>(call, e') \<in> set [(Call_commitBet 12, tx bob (10 ^ 15) 6)].
             \<not> (is_commitBet call \<and> msg_sender e' = msg_sender (tx alice 0 5))"
    by (simp add: scenario_defs)
  have d: "msg_sender (tx alice 0 h) = msg_sender (tx alice 0 k)" for h k
    by (simp add: tx_def)
  have p: "\<not> paused (run [] (snd (exec Call_refundExpiredBet (tx alice 0 300) alice_committed)))"
    by (simp add: scenario_defs model_defs)
  show ?thesis
    using a b p
      resolved_exactly_once [of 11 "tx alice 0 5" alice_committed _
        "[(Call_commitBet 12, tx bob (10 ^ 15) 6)]" "tx alice 0 300", OF _ c d]
      resolved_exactly_once [of _ "tx alice 0 300" alice_committed _ "[]" "tx alice 0 301" 11,
        OF _ _ d]
    by simp
qed

text \<open>
  Claim C8 as stated fails on the kind of error: after Alice's reveal went through and the
  owner paused the engine, her second reveal fails with \<open>EnforcedPause\<close>, not with
  \<open>NoPendingBet\<close>.
\<close>

theorem reveal_again_while_paused:
  "\<not> reverted (fst (exec (Call_revealBet 11) (tx alice 0 5) alice_committed))
   \<and> fst (exec (Call_revealBet 11) (tx alice 0 7)
            (run [(Call_pause, tx deployer 0 6)]
               (snd (exec (Call_revealBet 11) (tx alice 0 5) alice_committed))))
       = Reverted EnforcedPause"
  by (simp add: scenario_defs model_defs)

subsection \<open>Outcome resolution\<close>

lemma revealBet_outcome_spec:
  "revealBet_outcome r stake = Inr (res, p) \<Longrightarrow>
     res = tier_code (fst (outcome_resolver r stake)) \<and> p = snd (outcome_resolver r stake)"
  by (auto simp: revealBet_outcome_def outcome_resolver_def bind_def checked_mul_def
        MAX_PAYOUT_MULTIPLIER_def split: if_splits)

lemma quickBet_outcome_spec:
  "quickBet_outcome r stake = Inr (res, p) \<Longrightarrow>
     res = tier_code (fst (outcome_resolver r stake)) \<and> p = snd (outcome_resolver r stake)"
  by (auto simp: quickBet_outcome_def outcome_resolver_def bind_def checked_mul_def
        MAX_PAYOUT_MULTIPLIER_def split: if_splits)

lemma revealBet_success:
  assumes "revealBet secret e s = Inr (s', evs)"
  shows "\<exists>res p. revealBet_outcome
                   (reveal_random e secret (commitBlock (pendingBets s (msg_sender e))))
                   (amount (pendingBets s (msg_sender e))) = Inr (res, p)
           \<and> evs = [BetRevealed (msg_sender e) (amount (pendingBets s (msg_sender e))) res p]
           \<and> balance s' = balance s - p"
  using assms
  by (auto simp: revealBet_def reveal_random_def bind_def checked_add_def checked_sub_def
        checked_mul_def Let_def
      split: if_splits sum.splits prod.splits dest!: revealBet_settle_frame)

lemma quickBet_success:
  assumes "quickBet e s = Inr (s', evs)"
    and "\<not> balance s - msg_value e < worstCasePayout (msg_value e)"
  shows "\<exists>res p. quickBet_outcome (quick_random e (totalGamesPlayed s)) (msg_value e) = Inr (res, p)
           \<and> evs = [BetRevealed (msg_sender e) (msg_value e) res p]
           \<and> balance s' = balance s - p"
  using assms
  by (auto simp: quickBet_def quick_random_def worstCasePayout_def bind_def checked_sub_def
        checked_mul_def Let_def
      split: if_splits sum.splits prod.splits dest!: quickBet_settle_frame)

text \<open>
  Claim C5. The outcome code of the reveal path and of the quick-bet path are the same
  function of the random value and the stake, and that function is the Outcome Resolver of
  the specification: below 15 a Bullseye paying \<open>stake * 190 div 100\<close>, from 15 and
  below 50 a Ring paying \<open>stake div 2\<close>, from 50 a Miss paying nothing. Every reveal
  that goes through reports, and pays, the resolver's result at the random value derived
  from the secret, the hash of the block after the commit, the caller and the commit
  height; every quick bet that is played reports and pays the resolver's result at its own
  random value. Both random values are below 100.
\<close>

theorem outcome_resolution:
  "revealBet_outcome r stake = quickBet_outcome r stake
   \<and> (stake * 190 \<le> MAX_UINT256 \<longrightarrow>
        revealBet_outcome r stake
          = Inr (tier_code (fst (outcome_resolver r stake)), snd (outcome_resolver r stake)))
   \<and> (\<not> reverted (fst (exec (Call_revealBet secret) e s)) \<longrightarrow>
        fst (exec (Call_revealBet secret) e s)
          = Succeeded [BetRevealed (msg_sender e) (amount (pendingBets s (msg_sender e)))
              (tier_code (fst (outcome_resolver
                 (reveal_random e secret (commitBlock (pendingBets s (msg_sender e))))
                 (amount (pendingBets s (msg_sender e))))))
              (snd (outcome_resolver
                 (reveal_random e secret (commitBlock (pendingBets s (msg_sender e))))
                 (amount (pendingBets s (msg_sender e)))))]
        \<and> balance (snd (exec (Call_revealBet secret) e s))
            = balance s - snd (outcome_resolver
                 (reveal_random e secret (commitBlock (pendingBets s (msg_sender e))))
                 (amount (pendingBets s (msg_sender e)))))
   \<and> (\<not> reverted (fst (exec Call_quickBet e s)) \<and> worstCasePayout (msg_value e) \<le> balance s \<longrightarrow>
        fst (exec Call_quickBet e s)
          = Succeeded [BetRevealed (msg_sender e) (msg_value e)
              (tier_code (fst (outcome_resolver (quick_random e (totalGamesPlayed s))
                 (msg_value e))))
              (snd (outcome_resolver (quick_random e (totalGamesPlayed s)) (msg_value e)))]
        \<and> balance (snd (exec Call_quickBet e s))
            = balance s + msg_value e
                - snd (outcome_resolver (quick_random e (totalGamesPlayed s)) (msg_value e)))
   \<and> reveal_random e secret height < 100
   \<and> quick_random e games < 100"
proof -
  have bound: "reveal_random e secret height < 100" "quick_random e games < 100"
    by (simp_all add: reveal_random_def quick_random_def)
  have same: "revealBet_outcome r stake = quickBet_outcome r stake"
    by (simp add: revealBet_outcome_def quickBet_outcome_def)
  have pure: "stake * 190 \<le> MAX_UINT256 \<Longrightarrow>
      revealBet_outcome r stake
        = Inr (tier_code (fst (outcome_resolver r stake)), snd (outcome_resolver r stake))"
    by (simp add: revealBet_outcome_def outcome_resolver_def bind_def checked_mul_def
          MAX_PAYOUT_MULTIPLIER_def)
  have reveal: "\<not> reverted (fst (exec (Call_revealBet secret) e s)) \<Longrightarrow>
        fst (exec (Call_revealBet secret) e s)
          = Succeeded [BetRevealed (msg_sender e) (amount (pendingBets s (msg_sender e)))
              (tier_code (fst (outcome_resolver
                 (reveal_random e secret (commitBlock (pendingBets s (msg_sender e))))
                 (amount (pendingBets s (msg_sender e))))))
              (snd (outcome_resolver
                 (reveal_random e secret (commitBlock (pendingBets s (msg_sender e))))
                 (amount (pendingBets s (msg_sender e)))))]
        \<and> balance (snd (exec (Call_revealBet secret) e s))
            = balance s - snd (outcome_resolver
                 (reveal_random e secret (commitBlock (pendingBets s (msg_sender e))))
                 (amount (pendingBets s (msg_sender e))))"
    by (auto simp: nonpayable_def split: sum.splits
          dest!: revealBet_success dest: revealBet_outcome_spec)
  have quick: "\<not> reverted (fst (exec Call_quickBet e s)) \<Longrightarrow>
        worstCasePayout (msg_value e) \<le> balance s \<Longrightarrow>
        fst (exec Call_quickBet e s)
          = Succeeded [BetRevealed (msg_sender e) (msg_value e)
              (tier_code (fst (outcome_resolver (quick_random e (totalGamesPlayed s))
                 (msg_value e))))
              (snd (outcome_resolver (quick_random e (totalGamesPlayed s)) (msg_value e)))]
        \<and> balance (snd (exec Call_quickBet e s))
            = balance s + msg_value e
                - snd (outcome_resolver (quick_random e (totalGamesPlayed s)) (msg_value e))"
    using quickBet_success [of e "s\<lparr>balance := balance s + msg_value e\<rparr>"]
    by (auto simp: payable_def split: sum.splits dest: quickBet_outcome_spec)
  show ?thesis
    using same pure reveal quick bound by blast
qed

text \<open>
  Scenarios A to C of the specification (stake 1000 and random values 10, 30, 70), and a
  reveal and a quick bet that both hit the centre.
\<close>

theorem outcome_resolution_witness:
  "(1000::nat) * 190 \<le> MAX_UINT256
   \<and> revealBet_outcome 10 1000 = Inr (2, 1900)
   \<and> revealBet_outcome 30 1000 = Inr (1, 500)
   \<and> quickBet_outcome 70 1000 = Inr (0, 0)
   \<and> \<not> reverted (fst (exec (Call_revealBet 11) (tx alice 0 5) alice_committed))
   \<and> fst (exec (Call_revealBet 11) (tx alice 0 5) alice_committed)
       = Succeeded [BetRevealed alice (10 ^ 15) 2 (19 * 10 ^ 14)]
   \<and> \<not> reverted (fst (exec Call_quickBet (tx bob (10 ^ 15) 5) funded))
   \<and> worstCasePayout (msg_value (tx bob (10 ^ 15) 5)) \<le> balance funded
   \<and> fst (exec Call_quickBet (tx bob (10 ^ 15) 5) funded)
       = Succeeded [BetRevealed bob (10 ^ 15) 2 (19 * 10 ^ 14)]"
proof -
  have a: "(1000::nat) * 190 \<le> MAX_UINT256"
    by (simp add: MAX_UINT256_def)
  have b: "\<not> reverted (fst (exec (Call_revealBet 11) (tx alice 0 5) alice_committed))"
    by (simp add: scenario_defs model_defs)
  have c: "\<not> reverted (fst (exec Call_quickBet (tx bob (10 ^ 15) 5) funded))"
    by (simp add: scenario_defs model_defs)
  have d: "worstCasePayout (msg_value (tx bob (10 ^ 15) 5)) \<le> balance funded"
    by (simp add: worstCasePayout_def scenario_defs model_defs)
  have r: "reveal_random (tx alice 0 5) 11 (commitBlock (pendingBets alice_committed alice)) = 11"
    "quick_random (tx bob v 5) (totalGamesPlayed funded) = 0"
    "amount (pendingBets alice_committed alice) = 10 ^ 15"
    "msg_sender (tx a v h) = a" "msg_value (tx a v h) = v" for a v h
    by (simp_all add: reveal_random_def quick_random_def scenario_defs model_defs)
  have p1: "revealBet_outcome 10 1000 = Inr (2, 1900)"
    using a outcome_resolution [of 10 1000, THEN conjunct2, THEN conjunct1]
    by (simp add: outcome_resolver_def)
  have p2: "revealBet_outcome 30 1000 = Inr (1, 500)"
    using a outcome_resolution [of 30 1000, THEN conjunct2, THEN conjunct1]
    by (simp add: outcome_resolver_def)
  have p3: "quickBet_outcome 70 1000 = Inr (0, 0)"
    using a outcome_resolution [of 70 1000, THEN conjunct1]
      outcome_resolution [of 70 1000, THEN conjunct2, THEN conjunct1]
    by (simp add: outcome_resolver_def)
  have p4: "fst (exec (Call_revealBet 11) (tx alice 0 5) alice_committed)
              = Succeeded [BetRevealed alice (10 ^ 15) 2 (19 * 10 ^ 14)]"
    using outcome_resolution [of _ _ 11 "tx alice 0 5" alice_committed,
        THEN conjunct2, THEN conjunct2, THEN conjunct1, THEN mp, OF b, THEN conjunct1]
    by (simp add: r outcome_resolver_def)
  have p5: "fst (exec Call_quickBet (tx bob (10 ^ 15) 5) funded)
              = Succeeded [BetRevealed bob (10 ^ 15) 2 (19 * 10 ^ 14)]"
    using outcome_resolution [of _ _ _ "tx bob (10 ^ 15) 5" funded,
        THEN conjunct2, THEN conjunct2, THEN conjunct2, THEN conjunct1, THEN mp, OF conjI,
        OF c d, THEN conjunct1]
    by (simp add: r outcome_resolver_def)
  show ?thesis
    using a b c d p1 p2 p3 p4 p5 by simp
qed

subsection \<open>The house check of a commit\<close>

text \<open>
  Claim C2, as the code has it. For a stake within the limits, a caller with no open bet and
  an engine that is not paused, \<open>commitBet\<close> compares the worst-case payout with the
  balance the contract had before the stake came in. When that balance is below the
  payout, the call fails with \<open>InsufficientHouseBalance\<close> carrying that balance and the
  payout, and nothing changes: the stake is not retained. When that balance covers the
  payout on top of what is already reserved, the call succeeds, records the bet and
  reserves the payout. (The bet limit is within the ceiling of \<open>updateBetLimits\<close> and
  the balance is a \<^verbatim>\<open>uint256\<close>, so nothing overflows.)
\<close>

theorem commitBet_house_check:
  assumes "\<not> paused s"
    and "minBet s \<le> msg_value e" and "msg_value e \<le> maxBet s"
    and "\<not> committed (pendingBets s (msg_sender e))"
    and "maxBet s \<le> ether div 100"
    and "balance s + msg_value e \<le> MAX_UINT256"
  shows "(balance s < worstCasePayout (msg_value e) \<longrightarrow>
            exec (Call_commitBet h) e s
              = (Reverted (InsufficientHouseBalance (balance s) (worstCasePayout (msg_value e))), s))
       \<and> (reserveBalance s + worstCasePayout (msg_value e) \<le> balance s \<longrightarrow>
            exec (Call_commitBet h) e s
              = (Succeeded [BetCommitted (msg_sender e) (msg_value e) h],
                 s\<lparr>balance := balance s + msg_value e,
                   reserveBalance := reserveBalance s + worstCasePayout (msg_value e),
                   pendingBets := (pendingBets s)(msg_sender e :=
                     \<lparr> amount = msg_value e, commitBlock = block_number e,
                       commitHash = h, resolved = False \<rparr>)\<rparr>))"
proof -
  have small: "msg_value e * 190 \<le> MAX_UINT256"
  proof -
    have "msg_value e \<le> 10 ^ 16"
      using assms(3,5) by (simp add: ether_def)
    then have "msg_value e * 190 \<le> 10 ^ 16 * 190"
      by simp
    also have "\<dots> \<le> MAX_UINT256"
      by (simp add: MAX_UINT256_def)
    finally show ?thesis .
  qed
  have fails: "balance s < worstCasePayout (msg_value e) \<Longrightarrow>
      exec (Call_commitBet h) e s
        = (Reverted (InsufficientHouseBalance (balance s) (worstCasePayout (msg_value e))), s)"
    using assms(1-4) small
    by (simp add: payable_def commitBet_def committed_def worstCasePayout_def bind_def
          checked_mul_def checked_sub_def MAX_PAYOUT_MULTIPLIER_def Let_def)
  have succeeds: "reserveBalance s + worstCasePayout (msg_value e) \<le> balance s \<Longrightarrow>
      exec (Call_commitBet h) e s
        = (Succeeded [BetCommitted (msg_sender e) (msg_value e) h],
           s\<lparr>balance := balance s + msg_value e,
             reserveBalance := reserveBalance s + worstCasePayout (msg_value e),
             pendingBets := (pendingBets s)(msg_sender e :=
               \<lparr> amount = msg_value e, commitBlock = block_number e,
                 commitHash = h, resolved = False \<rparr>)\<rparr>)"
    using assms(1-4,6) small
    by (simp add: payable_def commitBet_def committed_def worstCasePayout_def bind_def
          checked_mul_def checked_sub_def checked_add_def MAX_PAYOUT_MULTIPLIER_def Let_def)
  show ?thesis
    using fails succeeds by blast
qed

theorem commitBet_house_check_witness:
  "\<not> paused thin_house \<and> \<not> paused funded
   \<and> minBet funded \<le> msg_value (tx alice (10 ^ 15) 2)
   \<and> msg_value (tx alice (10 ^ 15) 2) \<le> maxBet funded
   \<and> \<not> committed (pendingBets funded (msg_sender (tx alice (10 ^ 15) 2)))
   \<and> maxBet funded \<le> ether div 100
   \<and> balance funded + msg_value (tx alice (10 ^ 15) 2) \<le> MAX_UINT256
   \<and> balance thin_house < worstCasePayout (msg_value (tx alice (10 ^ 15) 2))
   \<and> exec (Call_commitBet 11) (tx alice (10 ^ 15) 2) thin_house
       = (Reverted (InsufficientHouseBalance (10 ^ 15) (19 * 10 ^ 14)), thin_house)
   \<and> reserveBalance funded + worstCasePayout (msg_value (tx alice (10 ^ 15) 2)) \<le> balance funded
   \<and> exec (Call_commitBet 11) (tx alice (10 ^ 15) 2) funded
       = (Succeeded [BetCommitted alice (10 ^ 15) 11], alice_committed)"
proof -
  let ?e = "tx alice (10 ^ 15) 2"
  have t: "\<not> paused thin_house" "minBet thin_house \<le> msg_value ?e"
    "msg_value ?e \<le> maxBet thin_house"
    "\<not> committed (pendingBets thin_house (msg_sender ?e))"
    "maxBet thin_house \<le> ether div 100"
    "balance thin_house + msg_value ?e \<le> MAX_UINT256"
    by (simp_all add: committed_def thin_house_def scenario_defs model_defs)
  have f: "\<not> paused funded" "minBet funded \<le> msg_value ?e"
    "msg_value ?e \<le> maxBet funded"
    "\<not> committed (pendingBets funded (msg_sender ?e))"
    "maxBet funded \<le> ether div 100"
    "balance funded + msg_value ?e \<le> MAX_UINT256"
    by (simp_all add: committed_def scenario_defs model_defs)
  have lo: "balance thin_house < worstCasePayout (msg_value ?e)"
    "balance thin_house = 10 ^ 15" "worstCasePayout (msg_value ?e) = 19 * 10 ^ 14"
    by (simp_all add: worstCasePayout_def thin_house_def scenario_defs model_defs)
  have hi: "reserveBalance funded + worstCasePayout (msg_value ?e) \<le> balance funded"
    by (simp add: worstCasePayout_def scenario_defs model_defs)
  have st: "snd (exec (Call_commitBet 11) ?e funded) = alice_committed"
    by (simp add: alice_committed_def)
  show ?thesis
    using t f lo hi st commitBet_house_check [OF t, of 11] commitBet_house_check [OF f, of 11]
    by (simp add: tx_def alice_def)
qed

text \<open>
  Claim C2 as stated fails: the balance that is compared does not include the incoming
  stake. With 0.001 CELO in the house and nothing reserved, a stake of 0.001 CELO brings
  the balance to 0.002, which is more than the payout of 0.0019; yet the commit fails, with
  0.001 reported as available. And on a paused engine a commit that the house could cover
  fails with \<open>EnforcedPause\<close>.
\<close>

theorem commitBet_excludes_stake:
  "minBet thin_house \<le> 10 ^ 15 \<and> 10 ^ 15 \<le> maxBet thin_house
   \<and> \<not> committed (pendingBets thin_house alice)
   \<and> worstCasePayout (10 ^ 15) \<le> (balance thin_house + 10 ^ 15) - reserveBalance thin_house
   \<and> exec (Call_commitBet 11) (tx alice (10 ^ 15) 2) thin_house
       = (Reverted (InsufficientHouseBalance (10 ^ 15) (19 * 10 ^ 14)), thin_house)
   \<and> \<not> committed (pendingBets paused_with_open_bet bob)
   \<and> worstCasePayout (10 ^ 15)
       \<le> (balance paused_with_open_bet + 10 ^ 15) - reserveBalance paused_with_open_bet
   \<and> fst (exec (Call_commitBet 12) (tx bob (10 ^ 15) 4) paused_with_open_bet)
       = Reverted EnforcedPause"
  by (simp add: committed_def worstCasePayout_def thin_house_def scenario_defs model_defs)

subsection \<open>Solvency\<close>

text \<open>
  The reserve counter itself is exact: from the constructor on, after any sequence of
  transactions, \<open>reserveBalance\<close> is the sum of \<open>stake * 190 div 100\<close> over the
  open bets. A commit adds the payout of the bet it opens; a reveal or a refund takes off
  the payout of the bet it closes; nothing else touches the counter or the ledger.
\<close>

lemma open_bets_sum:
  "(\<Sum>a | committed (pendingBets s a). worstCasePayout (amount (pendingBets s a)))
     = (\<Sum>a\<in>UNIV. liability (pendingBets s a))"
proof -
  have "(\<Sum>a\<in>UNIV. liability (pendingBets s a))
          = (\<Sum>a\<in>{a. committed (pendingBets s a)}. liability (pendingBets s a))"
    by (rule sum.mono_neutral_right) (auto simp: liability_def)
  also have "\<dots> = (\<Sum>a | committed (pendingBets s a). worstCasePayout (amount (pendingBets s a)))"
    by (rule sum.cong) (auto simp: liability_def)
  finally show ?thesis by simp
qed

lemma sum_slot_update:
  fixes pb :: "address \<Rightarrow> PendingBet"
  shows "(\<Sum>a\<in>UNIV. liability ((pb(c := bet)) a)) + liability (pb c)
           = (\<Sum>a\<in>UNIV. liability (pb a)) + liability bet"
proof -
  have split: "(\<Sum>a\<in>UNIV. g a) = g c + (\<Sum>a\<in>UNIV - {c}. g a)" for g :: "address \<Rightarrow> nat"
    by (rule sum.remove) simp_all
  have same: "(\<Sum>a\<in>UNIV - {c}. liability ((pb(c := bet)) a)) = (\<Sum>a\<in>UNIV - {c}. liability (pb a))"
    by (rule sum.cong) auto
  show ?thesis
    using split [of "\<lambda>a. liability ((pb(c := bet)) a)"] split [of "\<lambda>a. liability (pb a)"] same
    by simp
qed

lemma commitBet_effect:
  assumes "commitBet h e s = Inr (s', evs)"
  shows "liability (pendingBets s (msg_sender e)) = 0
       \<and> (\<exists>bet. pendingBets s' = (pendingBets s)(msg_sender e := bet)
                 \<and> liability bet = worstCasePayout (msg_value e))
       \<and> reserveBalance s' = reserveBalance s + worstCasePayout (msg_value e)"
  using assms
  by (auto simp: commitBet_def liability_def committed_def worstCasePayout_def bind_def
        checked_add_def checked_sub_def checked_mul_def Let_def split: if_splits)

lemma revealBet_effect:
  assumes "revealBet x e s = Inr (s', evs)"
  shows "(\<exists>bet. pendingBets s' = (pendingBets s)(msg_sender e := bet) \<and> liability bet = 0)
       \<and> reserveBalance s' + liability (pendingBets s (msg_sender e)) = reserveBalance s"
  using assms
  by (auto simp: revealBet_def liability_def committed_def worstCasePayout_def bind_def
        checked_add_def checked_sub_def checked_mul_def Let_def
      split: if_splits sum.splits prod.splits dest!: revealBet_settle_frame)

lemma refundExpiredBet_effect:
  assumes "refundExpiredBet e s = Inr (s', evs)"
  shows "(\<exists>bet. pendingBets s' = (pendingBets s)(msg_sender e := bet) \<and> liability bet = 0)
       \<and> reserveBalance s' + liability (pendingBets s (msg_sender e)) = reserveBalance s"
  using assms
  by (auto simp: refundExpiredBet_def liability_def committed_def worstCasePayout_def bind_def
        checked_add_def checked_sub_def checked_mul_def call_value_def Let_def
      split: if_splits sum.splits prod.splits)

lemma matches_iff:
  "reserve_matches_open_bets s \<longleftrightarrow> reserveBalance s = (\<Sum>a\<in>UNIV. liability (pendingBets s a))"
  by (simp add: reserve_matches_open_bets_def open_bets_sum)

lemma matches_credit [simp]:
  "reserve_matches_open_bets (s\<lparr>balance := b\<rparr>) = reserve_matches_open_bets s"
  by (simp add: reserve_matches_open_bets_def)

lemma exec_keeps_reserve_matching:
  assumes "reserve_matches_open_bets s"
  shows "reserve_matches_open_bets (snd (exec call e s))"
proof (cases call)
  case (Call_commitBet h)
  show ?thesis
  proof (cases "commitBet h e (s\<lparr>balance := balance s + msg_value e\<rparr>)")
    case (Inl err)
    with Call_commitBet assms show ?thesis by (simp add: payable_def)
  next
    case (Inr r)
    obtain s' evs where r: "r = (s', evs)" by (cases r)
    from commitBet_effect [OF Inr [unfolded r]] obtain bet where
      "liability (pendingBets s (msg_sender e)) = 0"
      "pendingBets s' = (pendingBets s)(msg_sender e := bet)"
      "liability bet = worstCasePayout (msg_value e)"
      "reserveBalance s' = reserveBalance s + worstCasePayout (msg_value e)"
      by auto
    with assms sum_slot_update [of "pendingBets s" "msg_sender e" bet]
    have "reserve_matches_open_bets s'"
      by (simp add: matches_iff)
    with Call_commitBet Inr r show ?thesis by (simp add: payable_def)
  qed
next
  case (Call_revealBet x)
  show ?thesis
  proof (cases "revealBet x e s")
    case (Inl err)
    with Call_revealBet assms show ?thesis by (simp add: nonpayable_def)
  next
    case (Inr r)
    obtain s' evs where r: "r = (s', evs)" by (cases r)
    from revealBet_effect [OF Inr [unfolded r]] obtain bet where
      "pendingBets s' = (pendingBets s)(msg_sender e := bet)" "liability bet = 0"
      "reserveBalance s' + liability (pendingBets s (msg_sender e)) = reserveBalance s"
      by auto
    with assms sum_slot_update [of "pendingBets s" "msg_sender e" bet]
    have "reserve_matches_open_bets s'"
      by (simp add: matches_iff)
    with Call_revealBet Inr r show ?thesis by (simp add: nonpayable_def)
  qed
next
  case Call_refundExpiredBet
  show ?thesis
  proof (cases "refundExpiredBet e s")
    case (Inl err)
    with Call_refundExpiredBet assms show ?thesis by (simp add: nonpayable_def)
  next
    case (Inr r)
    obtain s' evs where r: "r = (s', evs)" by (cases r)
    from refundExpiredBet_effect [OF Inr [unfolded r]] obtain bet where
      "pendingBets s' = (pendingBets s)(msg_sender e := bet)" "liability bet = 0"
      "reserveBalance s' + liability (pendingBets s (msg_sender e)) = reserveBalance s"
      by auto
    with assms sum_slot_update [of "pendingBets s" "msg_sender e" bet]
    have "reserve_matches_open_bets s'"
      by (simp add: matches_iff)
    with Call_refundExpiredBet Inr r show ?thesis by (simp add: nonpayable_def)
  qed
next
  case Call_quickBet
  then show ?thesis
    using assms quickBet_slots [of e "s\<lparr>balance := balance s + msg_value e\<rparr>"]
      quickBet_reserve [of e "s\<lparr>balance := balance s + msg_value e\<rparr>"]
    by (auto simp: payable_def reserve_matches_open_bets_def split: sum.splits)
next
  case Call_fundHouse
  then show ?thesis using assms by (simp add: payable_def fundHouse_def)
next
  case (Call_withdrawHouse a)
  then show ?thesis
    using assms
    by (simp add: nonpayable_def withdrawHouse_def bind_def checked_sub_def call_value_def
          reserve_matches_open_bets_def)
next
  case Call_pause
  then show ?thesis using assms by (simp add: nonpayable_def pause_def reserve_matches_open_bets_def)
next
  case Call_unpause
  then show ?thesis using assms by (simp add: nonpayable_def unpause_def reserve_matches_open_bets_def)
next
  case Call_emergencyWithdraw
  then show ?thesis
    using assms
    by (simp add: nonpayable_def emergencyWithdraw_def call_value_def Let_def
          reserve_matches_open_bets_def)
next
  case (Call_updateBetLimits lo hi)
  then show ?thesis
    using assms by (simp add: nonpayable_def updateBetLimits_def reserve_matches_open_bets_def)
next
  case Call_receive
  then show ?thesis using assms by (simp add: payable_def receive_def)
qed

lemma constructor_reserve_matching: "reserve_matches_open_bets (constructor d)"
  by (simp add: reserve_matches_open_bets_def constructor_def committed_def)

lemma reserve_tracks_open_bets:
  "reserve_matches_open_bets s \<Longrightarrow> reserve_matches_open_bets (run calls s)"
proof (induction calls arbitrary: s)
  case Nil
  then show ?case by simp
next
  case (Cons step calls)
  obtain call e where "step = (call, e)" by (cases step)
  with Cons show ?case
    by (simp add: exec_keeps_reserve_matching)
qed

text \<open>
  Claim C1 at a concrete run. The house is funded with 0.002 CELO and three players commit
  0.001 CELO each: every commit passes the house check, which looks at the balance and not
  at what is already reserved. After the third commit the reserve is 0.0057 CELO and the
  balance 0.005 CELO. Two players then reveal and win; the third player's winning reveal
  reverts, because the contract no longer holds the payout.
\<close>

theorem reserve_exceeds_balance:
  "balance (run overcommit_scenario (constructor deployer)) = 5 * 10 ^ 15
   \<and> reserveBalance (run overcommit_scenario (constructor deployer)) = 57 * 10 ^ 14
   \<and> balance (run overcommit_scenario (constructor deployer))
       < reserveBalance (run overcommit_scenario (constructor deployer))
   \<and> balance (run (overcommit_scenario @ two_reveals) (constructor deployer)) = 12 * 10 ^ 14
   \<and> reserveBalance (run (overcommit_scenario @ two_reveals) (constructor deployer)) = 19 * 10 ^ 14
   \<and> fst (exec (Call_revealBet 13) (tx carol 0 7)
            (run (overcommit_scenario @ two_reveals) (constructor deployer)))
       = Reverted (Error ''Payout failed'')"
  by (simp add: overcommit_scenario_def two_reveals_def carol_def scenario_defs model_defs)

end
